theory Spec2Isabelle
  imports Main "HOL-Library.Sublist"
begin

section \<open>Python strings\<close>

text \<open>
  Strings are lists of characters.  The helpers below follow the methods of Python's
  \<^verbatim>\<open>str\<close> that \<^verbatim>\<open>app.py\<close> calls: \<^verbatim>\<open>lower\<close>, \<^verbatim>\<open>strip\<close>, \<^verbatim>\<open>split\<close>,
  \<^verbatim>\<open>join\<close>, \<^verbatim>\<open>in\<close>, \<^verbatim>\<open>startswith\<close>, \<^verbatim>\<open>endswith\<close>, \<^verbatim>\<open>find\<close>, \<^verbatim>\<open>rfind\<close>
  and slicing.  Case folding and white space are modelled on the ASCII range.
\<close>

definition upper_lower_table :: "(char \<times> char) list" where
  "upper_lower_table = zip ''ABCDEFGHIJKLMNOPQRSTUVWXYZ'' ''abcdefghijklmnopqrstuvwxyz''"

definition lower_char :: "char \<Rightarrow> char" where
  "lower_char c = (case map_of upper_lower_table c of None \<Rightarrow> c | Some l \<Rightarrow> l)"

definition lower :: "string \<Rightarrow> string" where
  "lower s = map lower_char s"

text \<open>\<^verbatim>\<open>a in b\<close> for strings: \<open>a\<close> occurs in \<open>b\<close> as a contiguous substring.\<close>

fun str_in :: "string \<Rightarrow> string \<Rightarrow> bool" where
  "str_in a [] = (a = [])"
| "str_in a (c # cs) = (prefix a (c # cs) \<or> str_in a cs)"

definition is_space :: "char \<Rightarrow> bool" where
  "is_space c = (c \<in> set [CHR '' '', CHR 0x09, CHR 0x0A, CHR 0x0B, CHR 0x0C, CHR 0x0D,
                            CHR 0x1C, CHR 0x1D, CHR 0x1E, CHR 0x1F])"

definition strip :: "string \<Rightarrow> string" where
  "strip s = rev (dropWhile is_space (rev (dropWhile is_space s)))"

text \<open>\<^verbatim>\<open>s.split(sep)\<close> for a one-character separator: never the empty list.\<close>

fun split :: "char \<Rightarrow> string \<Rightarrow> string list" where
  "split sep [] = [[]]"
| "split sep (c # cs) =
     (if c = sep then [] # split sep cs
      else (case split sep cs of [] \<Rightarrow> [[c]] | w # ws \<Rightarrow> (c # w) # ws))"

text \<open>\<^verbatim>\<open>sep.join(parts)\<close>.\<close>

fun join :: "string \<Rightarrow> string list \<Rightarrow> string" where
  "join sep [] = []"
| "join sep [p] = p"
| "join sep (p # q # ps) = p @ sep @ join sep (q # ps)"

section \<open>The multigraph of \<^verbatim>\<open>networkx\<close>\<close>

text \<open>
  \<^verbatim>\<open>nx.MultiDiGraph\<close> keeps its nodes and, for every ordered pair of nodes, the
  parallel edges between them in insertion order.  Every edge of this program carries the
  five attributes that \<^verbatim>\<open>_build_graph\<close> passes to \<^verbatim>\<open>add_edge\<close>.  A node carries the
  \<^verbatim>\<open>columns\<close> attribute when \<^verbatim>\<open>add_node\<close> set it, and none when \<^verbatim>\<open>add_edge\<close>
  created it.
\<close>

record edge_data =
  source_columns :: "string list"
  target_columns :: "string list"
  join_type :: string
  context_label :: string
  description :: string

record graph =
  nodes :: "(string \<times> string list option) list"
  edges :: "(string \<times> string \<times> edge_data) list"

definition empty_graph :: graph where
  "empty_graph = \<lparr>nodes = [], edges = []\<rparr>"

definition has_node :: "graph \<Rightarrow> string \<Rightarrow> bool" where
  "has_node g n = (n \<in> fst ` set (nodes g))"

definition add_node :: "string \<Rightarrow> string list \<Rightarrow> graph \<Rightarrow> graph" where
  "add_node n cols g =
     (if has_node g n
      then g\<lparr>nodes := map (\<lambda>(m, a). if m = n then (m, Some cols) else (m, a)) (nodes g)\<rparr>
      else g\<lparr>nodes := nodes g @ [(n, Some cols)]\<rparr>)"

definition touch_node :: "string \<Rightarrow> graph \<Rightarrow> graph" where
  "touch_node n g = (if has_node g n then g else g\<lparr>nodes := nodes g @ [(n, None)]\<rparr>)"

definition add_edge :: "string \<Rightarrow> string \<Rightarrow> edge_data \<Rightarrow> graph \<Rightarrow> graph" where
  "add_edge u v d g = (let g' = touch_node v (touch_node u g) in g'\<lparr>edges := edges g' @ [(u, v, d)]\<rparr>)"

text \<open>\<^verbatim>\<open>get_edge_data(u, v)\<close>: the attribute dictionaries of the edges recorded from
  \<open>u\<close> to \<open>v\<close>, in key order.\<close>

definition get_edge_data :: "graph \<Rightarrow> string \<Rightarrow> string \<Rightarrow> edge_data list" where
  "get_edge_data g u v = map (\<lambda>(a, b, d). d) (filter (\<lambda>(a, b, d). a = u \<and> b = v) (edges g))"

definition has_edge :: "graph \<Rightarrow> string \<Rightarrow> string \<Rightarrow> bool" where
  "has_edge g u v = list_ex (\<lambda>(a, b, d). a = u \<and> b = v) (edges g)"

section \<open>\<^verbatim>\<open>TableKnowledgeGraph\<close>: construction\<close>

datatype py_error = KeyError string | NodeNotFound | NetworkXNoPath | JSONDecodeError string

type_synonym pydict = "(string \<times> string) list"

definition getitem :: "pydict \<Rightarrow> string \<Rightarrow> py_error + string" where
  "getitem d k = (case map_of d k of None \<Rightarrow> Inl (KeyError k) | Some v \<Rightarrow> Inr v)"

definition get_default :: "pydict \<Rightarrow> string \<Rightarrow> string \<Rightarrow> string" where
  "get_default d k dflt = (case map_of d k of None \<Rightarrow> dflt | Some v \<Rightarrow> v)"

record TableKnowledgeGraph =
  kg_graph :: graph
  schemas :: "(string \<times> pydict list) list"
  relationships :: "pydict list"

text \<open>\<^verbatim>\<open>[col["name"] for col in columns]\<close>\<close>

fun column_names :: "pydict list \<Rightarrow> py_error + string list" where
  "column_names [] = Inr []"
| "column_names (col # cols) =
     (case getitem col ''name'' of
        Inl e \<Rightarrow> Inl e
      | Inr n \<Rightarrow> (case column_names cols of Inl e \<Rightarrow> Inl e | Inr ns \<Rightarrow> Inr (n # ns)))"

fun add_tables :: "(string \<times> pydict list) list \<Rightarrow> graph \<Rightarrow> py_error + graph" where
  "add_tables [] g = Inr g"
| "add_tables ((table_name, columns) # rest) g =
     (case column_names columns of
        Inl e \<Rightarrow> Inl e
      | Inr names \<Rightarrow> add_tables rest (add_node table_name names g))"

text \<open>\<^verbatim>\<open>[col.strip() for col in key.split('+')]\<close>\<close>

definition parse_join_key :: "string \<Rightarrow> string list" where
  "parse_join_key k = map strip (split CHR ''+'' k)"

text \<open>The body of the loop over \<^verbatim>\<open>self.relationships\<close> (lines 64 to 80).\<close>

definition add_relationship :: "pydict \<Rightarrow> graph \<Rightarrow> py_error + graph" where
  "add_relationship rel g =
     (case getitem rel ''table1'' of Inl e \<Rightarrow> Inl e | Inr table1 \<Rightarrow>
     (case getitem rel ''table2'' of Inl e \<Rightarrow> Inl e | Inr table2 \<Rightarrow>
     (case getitem rel ''join_key_1'' of Inl e \<Rightarrow> Inl e | Inr k1 \<Rightarrow>
     (case getitem rel ''join_key_2'' of Inl e \<Rightarrow> Inl e | Inr k2 \<Rightarrow>
        Inr (add_edge table1 table2
              \<lparr>source_columns = parse_join_key k1,
               target_columns = parse_join_key k2,
               join_type = get_default rel ''join_type'' ''INNER'',
               context_label = get_default rel ''context'' ''default'',
               description = get_default rel ''description'' (''Join '' @ table1 @ '' with '' @ table2)\<rparr>
              g)))))"

fun add_relationships :: "pydict list \<Rightarrow> graph \<Rightarrow> py_error + graph" where
  "add_relationships [] g = Inr g"
| "add_relationships (rel # rest) g =
     (case add_relationship rel g of Inl e \<Rightarrow> Inl e | Inr g' \<Rightarrow> add_relationships rest g')"

definition build_graph :: "(string \<times> pydict list) list \<Rightarrow> pydict list \<Rightarrow> py_error + graph" where
  "build_graph schs rels =
     (case add_tables schs empty_graph of Inl e \<Rightarrow> Inl e | Inr g \<Rightarrow> add_relationships rels g)"

definition init :: "(string \<times> pydict list) list \<Rightarrow> pydict list \<Rightarrow> py_error + TableKnowledgeGraph" where
  "init schs rels =
     (case build_graph schs rels of
        Inl e \<Rightarrow> Inl e
      | Inr g \<Rightarrow> Inr \<lparr>kg_graph = g, schemas = schs, relationships = rels\<rparr>)"

section \<open>\<^verbatim>\<open>get_join_relationships\<close>\<close>

record join_record =
  from_table :: string
  to_table :: string
  join_condition :: string
  rel_join_type :: string
  rel_context :: string
  rel_description :: string

text \<open>Lines 114 to 118: is there an edge in \<^verbatim>\<open>edges_dict\<close> that is not labelled
  \<^verbatim>\<open>default\<close> and whose label contains the lowered context?\<close>

definition has_context_specific_edges :: "string \<Rightarrow> edge_data list \<Rightarrow> bool" where
  "has_context_specific_edges context_lower edges_dict =
     list_ex (\<lambda>ed. str_in context_lower (lower (context_label ed)))
       (filter (\<lambda>ed. context_label ed \<noteq> ''default'') edges_dict)"

text \<open>Lines 105 to 127: \<open>True\<close> where the loop body reaches \<^verbatim>\<open>continue\<close>.  A context
  that is \<^verbatim>\<open>None\<close> or empty is falsy and filters nothing.\<close>

definition skip_edge :: "string option \<Rightarrow> edge_data list \<Rightarrow> edge_data \<Rightarrow> bool" where
  "skip_edge ctx edges_dict ed =
     (case ctx of
        None \<Rightarrow> False
      | Some c \<Rightarrow>
          if c = [] then False
          else
            (let context_lower = lower c;
                 edge_context_lower = lower (context_label ed);
                 has_context_match = str_in context_lower edge_context_lower;
                 is_default = (context_label ed = ''default'')
             in if \<not> has_context_match
                then (if is_default \<and> \<not> has_context_specific_edges context_lower edges_dict
                      then False else True)
                else False))"

text \<open>Lines 130 to 145: the record appended for an edge that was not skipped.\<close>

definition join_conditions :: "string \<Rightarrow> string \<Rightarrow> edge_data \<Rightarrow> string list" where
  "join_conditions start finish ed =
     map (\<lambda>(src, tgt). start @ ''.'' @ src @ '' = '' @ finish @ ''.'' @ tgt)
       (zip (source_columns ed) (target_columns ed))"

definition make_record :: "string \<Rightarrow> string \<Rightarrow> edge_data \<Rightarrow> join_record" where
  "make_record start finish ed =
     \<lparr>from_table = start, to_table = finish,
      join_condition = join '' AND '' (join_conditions start finish ed),
      rel_join_type = join_type ed,
      rel_context = context_label ed,
      rel_description = description ed\<rparr>"

text \<open>The loop over \<^verbatim>\<open>edges_dict.items()\<close> (line 98).\<close>

fun edge_loop :: "string option \<Rightarrow> edge_data list \<Rightarrow> string \<Rightarrow> string \<Rightarrow> edge_data list \<Rightarrow> join_record list" where
  "edge_loop ctx edges_dict start finish [] = []"
| "edge_loop ctx edges_dict start finish (ed # rest) =
     (if skip_edge ctx edges_dict ed then edge_loop ctx edges_dict start finish rest
      else make_record start finish ed # edge_loop ctx edges_dict start finish rest)"

text \<open>One pass of the loop over the two directions (lines 92 to 95).\<close>

definition direction_joins :: "graph \<Rightarrow> string option \<Rightarrow> string \<Rightarrow> string \<Rightarrow> join_record list" where
  "direction_joins g ctx start finish =
     (if has_edge g start finish
      then (let edges_dict = get_edge_data g start finish
            in edge_loop ctx edges_dict start finish edges_dict)
      else [])"

definition pair_joins :: "graph \<Rightarrow> string option \<Rightarrow> string \<Rightarrow> string \<Rightarrow> join_record list" where
  "pair_joins g ctx source target =
     direction_joins g ctx source target @ direction_joins g ctx target source"

text \<open>The double loop \<^verbatim>\<open>for i in range(len(tables)): for j in range(i + 1, len(tables))\<close>
  visits the pairs of positions \<open>i < j\<close> in lexicographic order.\<close>

fun index_pairs :: "'a list \<Rightarrow> ('a \<times> 'a) list" where
  "index_pairs [] = []"
| "index_pairs (x # xs) = map (Pair x) xs @ index_pairs xs"

definition get_join_relationships :: "TableKnowledgeGraph \<Rightarrow> string list \<Rightarrow> string option \<Rightarrow> join_record list" where
  "get_join_relationships self tables ctx =
     concat (map (\<lambda>(source, target). pair_joins (kg_graph self) ctx source target) (index_pairs tables))"

text \<open>The edges of one direction that the loop does not skip.\<close>

definition included_edges :: "graph \<Rightarrow> string option \<Rightarrow> string \<Rightarrow> string \<Rightarrow> edge_data list" where
  "included_edges g ctx u v =
     filter (\<lambda>ed. \<not> skip_edge ctx (get_edge_data g u v) ed) (get_edge_data g u v)"

text \<open>The \<open>i\<close>-th equality of an edge, and \<open>n\<close> of them chained with \<^verbatim>\<open>AND\<close>, written
  out position by position.\<close>

definition equality :: "string \<Rightarrow> string \<Rightarrow> edge_data \<Rightarrow> nat \<Rightarrow> string" where
  "equality start finish ed i =
     start @ ''.'' @ source_columns ed ! i @ '' = '' @ finish @ ''.'' @ target_columns ed ! i"

definition and_chain :: "string \<Rightarrow> string \<Rightarrow> edge_data \<Rightarrow> nat \<Rightarrow> string" where
  "and_chain start finish ed n =
     equality start finish ed 0 @ concat (map (\<lambda>i. '' AND '' @ equality start finish ed i) [1..<n])"

text \<open>A relationship dictionary that holds the four keys read with \<^verbatim>\<open>rel[...]\<close>, and a
  schema whose column dictionaries all hold \<^verbatim>\<open>name\<close>.\<close>

definition rel_complete :: "pydict \<Rightarrow> bool" where
  "rel_complete rel =
     list_all (\<lambda>k. map_of rel k \<noteq> None) [''table1'', ''table2'', ''join_key_1'', ''join_key_2'']"

definition schema_complete :: "(string \<times> pydict list) list \<Rightarrow> bool" where
  "schema_complete schs = list_all (\<lambda>(t, cols). list_all (\<lambda>col. map_of col ''name'' \<noteq> None) cols) schs"

text \<open>The edge that a complete relationship dictionary stands for.\<close>

definition recorded_edge :: "pydict \<Rightarrow> string \<times> string \<times> edge_data" where
  "recorded_edge rel =
     (let table1 = the (map_of rel ''table1''); table2 = the (map_of rel ''table2'')
      in (table1, table2,
          \<lparr>source_columns = parse_join_key (the (map_of rel ''join_key_1'')),
           target_columns = parse_join_key (the (map_of rel ''join_key_2'')),
           join_type = get_default rel ''join_type'' ''INNER'',
           context_label = get_default rel ''context'' ''default'',
           description = get_default rel ''description'' (''Join '' @ table1 @ '' with '' @ table2)\<rparr>))"

text \<open>A relationship whose two join keys have different numbers of columns.\<close>

definition unequal_rel :: pydict where
  "unequal_rel =
     [(''table1'', ''Counterparty''), (''table2'', ''Trade''),
      (''join_key_1'', ''Entity+Counterparty ID''), (''join_key_2'', ''Reporting Counterparty ID'')]"

section \<open>\<^verbatim>\<open>get_all_tables_needed\<close>\<close>

text \<open>
  \<^verbatim>\<open>self.graph.to_undirected()\<close> is a copy of the graph in which two nodes are adjacent
  when an edge was recorded between them in either direction.
\<close>

definition adjacent :: "graph \<Rightarrow> string \<Rightarrow> string \<Rightarrow> bool" where
  "adjacent g u v = (has_edge g u v \<or> has_edge g v u)"

text \<open>
  Modelled from the library's documentation: \<^verbatim>\<open>nx.shortest_path(G, source, target)\<close>
  belongs to \<^verbatim>\<open>networkx\<close>, not to this repository.  Without weights it raises
  \<^verbatim>\<open>NodeNotFound\<close> when an end point is not a node of \<open>G\<close>, raises
  \<^verbatim>\<open>NetworkXNoPath\<close> when the end points are not connected, and otherwise returns the
  node list of a path with the fewest edges.  The library does not fix which of several
  shortest paths is returned; the breadth-first search below takes the first discovered
  one, and no property proved here depends on that choice.  A frontier entry \<open>(v, p)\<close>
  stands for the path \<open>rev (v # p)\<close> from the source to \<open>v\<close>.
\<close>

definition expand :: "graph \<Rightarrow> (string \<times> string list) list \<Rightarrow> string list \<Rightarrow> (string \<times> string list) list" where
  "expand g frontier unvisited =
     List.map_filter
       (\<lambda>n. map_option (\<lambda>(v, p). (n, v # p)) (find (\<lambda>(v, p). adjacent g v n) frontier))
       unvisited"

function bfs :: "graph \<Rightarrow> string \<Rightarrow> (string \<times> string list) list \<Rightarrow> string list \<Rightarrow> py_error + string list" where
  "bfs g target frontier unvisited =
     (case find (\<lambda>(v, p). v = target) frontier of
        Some (v, p) \<Rightarrow> Inr (rev (v # p))
      | None \<Rightarrow>
          (if expand g frontier unvisited = [] then Inl NetworkXNoPath
           else bfs g target (expand g frontier unvisited)
                  (filter (\<lambda>n. n \<notin> fst ` set (expand g frontier unvisited)) unvisited)))"
  by pat_completeness auto
termination
proof (relation "measure (\<lambda>(g, target, frontier, unvisited). length unvisited)")
  show "wf (measure (\<lambda>(g, target, frontier, unvisited). length unvisited))"
    by simp
next
  fix g :: graph and target :: string and frontier :: "(string \<times> string list) list"
    and unvisited :: "string list"
  assume nonempty: "expand g frontier unvisited \<noteq> []"
  then obtain n q where nq: "(n, q) \<in> set (expand g frontier unvisited)"
    by (cases "expand g frontier unvisited") auto
  then have "n \<in> set unvisited"
    by (auto simp: expand_def List.map_filter_def split: option.splits)
  moreover have "n \<in> fst ` set (expand g frontier unvisited)"
    using nq by force
  ultimately have
    "length (filter (\<lambda>n. n \<notin> fst ` set (expand g frontier unvisited)) unvisited) < length unvisited"
    by (intro length_filter_less[of n]) auto
  then show "((g, target, expand g frontier unvisited,
               filter (\<lambda>n. n \<notin> fst ` set (expand g frontier unvisited)) unvisited),
              (g, target, frontier, unvisited))
             \<in> measure (\<lambda>(g, target, frontier, unvisited). length unvisited)"
    by simp
qed

declare bfs.simps [simp del]

definition shortest_path :: "graph \<Rightarrow> string \<Rightarrow> string \<Rightarrow> py_error + string list" where
  "shortest_path g source target =
     (if \<not> has_node g source \<or> \<not> has_node g target then Inl NodeNotFound
      else bfs g target [(source, [])] (filter (\<lambda>n. n \<noteq> source) (map fst (nodes g))))"

text \<open>The double loop of lines 153 to 163.  Only \<^verbatim>\<open>NetworkXNoPath\<close> is caught; any other
  exception of \<^verbatim>\<open>shortest_path\<close> leaves the method.\<close>

fun path_loop :: "graph \<Rightarrow> (string \<times> string) list \<Rightarrow> string set \<Rightarrow> py_error + string set" where
  "path_loop g [] all_tables = Inr all_tables"
| "path_loop g ((a, b) # rest) all_tables =
     (case shortest_path g a b of
        Inr path \<Rightarrow> path_loop g rest (all_tables \<union> set path)
      | Inl e \<Rightarrow> (if e = NetworkXNoPath then path_loop g rest all_tables else Inl e))"

text \<open>\<^verbatim>\<open>list(all_tables)\<close> enumerates a Python set, in an order the language leaves open:
  the result is the set.\<close>

definition get_all_tables_needed :: "TableKnowledgeGraph \<Rightarrow> string list \<Rightarrow> py_error + string set" where
  "get_all_tables_needed self tables = path_loop (kg_graph self) (index_pairs tables) (set tables)"

text \<open>Paths of the undirected graph, for stating what a shortest connecting path is.\<close>

fun is_walk :: "graph \<Rightarrow> string list \<Rightarrow> bool" where
  "is_walk g [] = False"
| "is_walk g [v] = has_node g v"
| "is_walk g (u # v # p) = (has_node g u \<and> adjacent g u v \<and> is_walk g (v # p))"




text \<open>
  For the proofs: the nodes within \<open>k\<close> steps of \<open>s\<close>, and what the search maintains
  when its frontier holds the nodes first reached after exactly \<open>k\<close> steps.
\<close>

fun within :: "graph \<Rightarrow> string \<Rightarrow> nat \<Rightarrow> string set" where
  "within g s 0 = {s}"
| "within g s (Suc k) = within g s k \<union> {v. has_node g v \<and> (\<exists>u \<in> within g s k. adjacent g u v)}"


section \<open>\<^verbatim>\<open>identify_tables\<close>: reading the response\<close>

text \<open>\<^verbatim>\<open>s.find(c)\<close> and \<^verbatim>\<open>s.rfind(c)\<close> for one character: the first and the last position of
  \<open>c\<close>, or \<open>-1\<close>.  \<^verbatim>\<open>s[i:j]\<close> for \<open>0 \<le> i\<close> and \<open>0 \<le> j\<close>.\<close>

definition find_char :: "string \<Rightarrow> char \<Rightarrow> int" where
  "find_char s c = (if c \<in> set s then int (length (takeWhile (\<lambda>x. x \<noteq> c) s)) else - 1)"

definition rfind_char :: "string \<Rightarrow> char \<Rightarrow> int" where
  "rfind_char s c =
     (if c \<in> set s then int (length s) - 1 - int (length (takeWhile (\<lambda>x. x \<noteq> c) (rev s))) else - 1)"

definition slice :: "string \<Rightarrow> int \<Rightarrow> int \<Rightarrow> string" where
  "slice s i j = drop (nat i) (take (nat j) s)"

definition startswith :: "string \<Rightarrow> string \<Rightarrow> bool" where
  "startswith s p = prefix p s"

definition endswith :: "string \<Rightarrow> string \<Rightarrow> bool" where
  "endswith s p = suffix p s"

text \<open>Lines 581 to 588.\<close>

definition clean_response :: "string \<Rightarrow> string" where
  "clean_response response0 =
     (let response1 = strip response0;
          response2 = (if startswith response1 ''```json'' then drop 7 response1
                       else if startswith response1 ''```'' then drop 3 response1
                       else response1);
          response3 = (if endswith response2 ''```'' then take (length response2 - 3) response2
                       else response2)
      in strip response3)"

text \<open>Lines 591 to 599.  \<^verbatim>\<open>json.loads\<close> is the decoder of the standard library and a
  parameter here: \<open>Inl\<close> is the \<^verbatim>\<open>JSONDecodeError\<close> it raises, which line 602 raises
  again.\<close>

definition parse_response :: "(string \<Rightarrow> py_error + 'v) \<Rightarrow> string \<Rightarrow> py_error + 'v" where
  "parse_response loads response0 =
     (let response = clean_response response0;
          start = find_char response CHR ''{'';
          finish = rfind_char response CHR ''}'' + 1
      in if start \<noteq> - 1 \<and> finish > start then loads (slice response start finish)
         else loads response)"

text \<open>The decoder on the three JSON literals, where \<^verbatim>\<open>json.loads\<close> returns \<^verbatim>\<open>None\<close>,
  \<^verbatim>\<open>True\<close> and \<^verbatim>\<open>False\<close>.  Other documents are outside this fragment and it reports
  them as undecodable; it serves to run \<open>parse_response\<close> on a literal.\<close>

datatype json_literal = JNull | JTrue | JFalse

definition loads_literal :: "string \<Rightarrow> py_error + json_literal" where
  "loads_literal s =
     (if s = ''null'' then Inr JNull
      else if s = ''true'' then Inr JTrue
      else if s = ''false'' then Inr JFalse
      else Inl (JSONDecodeError s))"

section \<open>The query methods as steps on the object state\<close>

text \<open>
  The two query methods once more, this time as the source runs them: every statement
  receives the state of the object \<^verbatim>\<open>self\<close> and hands on the state it leaves.  The methods
  reach the object through three calls on \<^verbatim>\<open>self.graph\<close>.  Modelled from the library's
  documentation: \<^verbatim>\<open>has_edge\<close> and \<^verbatim>\<open>get_edge_data\<close> report on the graph, and
  \<^verbatim>\<open>to_undirected\<close> returns a new graph built from a deep copy of the data; none of
  them changes the graph it is called on.  \<^verbatim>\<open>add_edge\<close>, which \<^verbatim>\<open>_build_graph\<close> calls,
  does change it.
\<close>

type_synonym 'a action = "TableKnowledgeGraph \<Rightarrow> 'a \<times> TableKnowledgeGraph"

definition graph_has_edge :: "string \<Rightarrow> string \<Rightarrow> bool action" where
  "graph_has_edge u v self = (has_edge (kg_graph self) u v, self)"

definition graph_get_edge_data :: "string \<Rightarrow> string \<Rightarrow> edge_data list action" where
  "graph_get_edge_data u v self = (get_edge_data (kg_graph self) u v, self)"

definition graph_to_undirected :: "graph action" where
  "graph_to_undirected self = (kg_graph self, self)"

definition graph_add_edge :: "string \<Rightarrow> string \<Rightarrow> edge_data \<Rightarrow> unit action" where
  "graph_add_edge u v d self = ((), self\<lparr>kg_graph := add_edge u v d (kg_graph self)\<rparr>)"

text \<open>Lines 93 to 145 for one direction: the records appended to the local list
  \<^verbatim>\<open>relationships\<close>, and the state of the object afterwards.\<close>

definition direction_step :: "string option \<Rightarrow> string \<Rightarrow> string \<Rightarrow> join_record list action" where
  "direction_step ctx start finish self =
     (let (present, self1) = graph_has_edge start finish self
      in if present
         then (let (edges_dict, self2) = graph_get_edge_data start finish self1
               in (edge_loop ctx edges_dict start finish edges_dict, self2))
         else ([], self1))"

text \<open>Lines 86 to 92: the loop over the pairs, each in both directions.\<close>

fun pairs_step :: "string option \<Rightarrow> (string \<times> string) list \<Rightarrow> join_record list action" where
  "pairs_step ctx [] self = ([], self)"
| "pairs_step ctx ((source, target) # rest) self =
     (let (forward, self1) = direction_step ctx source target self;
          (backward, self2) = direction_step ctx target source self1;
          (others, self3) = pairs_step ctx rest self2
      in (forward @ backward @ others, self3))"

definition get_join_relationships_step :: "string list \<Rightarrow> string option \<Rightarrow> join_record list action" where
  "get_join_relationships_step tables ctx self = pairs_step ctx (index_pairs tables) self"

text \<open>Lines 153 to 163: \<^verbatim>\<open>to_undirected\<close> is called anew for every pair, and the search
  runs on the copy.\<close>

fun paths_step :: "(string \<times> string) list \<Rightarrow> string set \<Rightarrow> (py_error + string set) action" where
  "paths_step [] all_tables self = (Inr all_tables, self)"
| "paths_step ((a, b) # rest) all_tables self =
     (let (undirected, self1) = graph_to_undirected self
      in case shortest_path undirected a b of
           Inr path \<Rightarrow> paths_step rest (all_tables \<union> set path) self1
         | Inl e \<Rightarrow> (if e = NetworkXNoPath then paths_step rest all_tables self1 else (Inl e, self1)))"

definition get_all_tables_needed_step :: "string list \<Rightarrow> (py_error + string set) action" where
  "get_all_tables_needed_step tables self = paths_step (index_pairs tables) (set tables) self"

text \<open>A sequence of calls on one object; a call that raises ends with its error as the
  answer, and the caller goes on with the object.\<close>

datatype query = GetJoinRelationships "string list" "string option" | GetAllTablesNeeded "string list"

datatype answer = Joins "join_record list" | Tables "py_error + string set"

fun call :: "query \<Rightarrow> answer action" where
  "call (GetJoinRelationships tables ctx) self =
     (let (joins, self') = get_join_relationships_step tables ctx self in (Joins joins, self'))"
| "call (GetAllTablesNeeded tables) self =
     (let (tables', self') = get_all_tables_needed_step tables self in (Tables tables', self'))"

fun calls :: "query list \<Rightarrow> answer list action" where
  "calls [] self = ([], self)"
| "calls (q # qs) self =
     (let (a, self') = call q self; (as, self'') = calls qs self' in (a # as, self''))"

section \<open>The scenario of the country-level join\<close>

definition country_rel :: pydict where
  "country_rel =
     [(''table1'', ''Counterparty''), (''table2'', ''Concentration''),
      (''join_key_1'', ''Entity+Counterparty Country''),
      (''join_key_2'', ''Entity+Concentration Value''),
      (''join_type'', ''INNER''), (''context'', ''For country level data''),
      (''description'', ''Join Counterparty with Concentration'')]"

definition country_record :: join_record where
  "country_record =
     \<lparr>from_table = ''Counterparty'', to_table = ''Concentration'',
      join_condition = ''Counterparty.Entity = Concentration.Entity AND Counterparty.Counterparty Country = Concentration.Concentration Value'',
      rel_join_type = ''INNER'', rel_context = ''For country level data'',
      rel_description = ''Join Counterparty with Concentration''\<rparr>"

definition default_rel :: "string \<Rightarrow> string \<Rightarrow> pydict" where
  "default_rel k1 k2 =
     [(''table1'', ''Counterparty''), (''table2'', ''Concentration''),
      (''join_key_1'', k1), (''join_key_2'', k2),
      (''join_type'', ''INNER''), (''context'', ''default''),
      (''description'', ''Join Counterparty with Concentration'')]"

text \<open>Objects built from the relationships above, written out.\<close>

definition country_edge :: edge_data where
  "country_edge =
     \<lparr>source_columns = [''Entity'', ''Counterparty Country''],
      target_columns = [''Entity'', ''Concentration Value''],
      join_type = ''INNER'', context_label = ''For country level data'',
      description = ''Join Counterparty with Concentration''\<rparr>"

definition fallback_edge :: edge_data where
  "fallback_edge =
     \<lparr>source_columns = [''Entity'', ''Counterparty ID''],
      target_columns = [''Entity'', ''Concentration ID''],
      join_type = ''INNER'', context_label = ''default'',
      description = ''Join Counterparty with Concentration''\<rparr>"

text \<open>Both edges recorded from Counterparty to Concentration.\<close>

definition country_kg :: TableKnowledgeGraph where
  "country_kg =
     \<lparr>kg_graph = \<lparr>nodes = [(''Counterparty'', None), (''Concentration'', None)],
                  edges = [(''Counterparty'', ''Concentration'', country_edge),
                           (''Counterparty'', ''Concentration'', fallback_edge)]\<rparr>,
      schemas = [],
      relationships = [country_rel, default_rel ''Entity+Counterparty ID'' ''Entity+Concentration ID'']\<rparr>"

text \<open>The default edge recorded the other way round, from Concentration to Counterparty.\<close>

definition reversed_default_rel :: pydict where
  "reversed_default_rel =
     [(''table1'', ''Concentration''), (''table2'', ''Counterparty''),
      (''join_key_1'', ''Entity+Concentration ID''), (''join_key_2'', ''Entity+Counterparty ID''),
      (''join_type'', ''INNER''), (''context'', ''default''),
      (''description'', ''Join Concentration with Counterparty'')]"

definition reversed_default_edge :: edge_data where
  "reversed_default_edge =
     \<lparr>source_columns = [''Entity'', ''Concentration ID''],
      target_columns = [''Entity'', ''Counterparty ID''],
      join_type = ''INNER'', context_label = ''default'',
      description = ''Join Concentration with Counterparty''\<rparr>"

definition two_way_kg :: TableKnowledgeGraph where
  "two_way_kg =
     \<lparr>kg_graph = \<lparr>nodes = [(''Counterparty'', None), (''Concentration'', None)],
                  edges = [(''Counterparty'', ''Concentration'', country_edge),
                           (''Concentration'', ''Counterparty'', reversed_default_edge)]\<rparr>,
      schemas = [], relationships = [country_rel, reversed_default_rel]\<rparr>"

definition trade_rel :: pydict where
  "trade_rel =
     [(''table1'', ''Counterparty''), (''table2'', ''Trade''),
      (''join_key_1'', ''Entity+Counterparty ID''), (''join_key_2'', ''Entity+Reporting Counterparty ID''),
      (''join_type'', ''INNER''), (''context'', ''default''),
      (''description'', ''Join Counterparty with Trade'')]"

definition trade_edge :: edge_data where
  "trade_edge =
     \<lparr>source_columns = [''Entity'', ''Counterparty ID''],
      target_columns = [''Entity'', ''Reporting Counterparty ID''],
      join_type = ''INNER'', context_label = ''default'',
      description = ''Join Counterparty with Trade''\<rparr>"

definition trade_kg :: TableKnowledgeGraph where
  "trade_kg =
     \<lparr>kg_graph = \<lparr>nodes = [(''Counterparty'', None), (''Trade'', None)],
                  edges = [(''Counterparty'', ''Trade'', trade_edge)]\<rparr>,
      schemas = [], relationships = [trade_rel]\<rparr>"

definition trade_record :: join_record where
  "trade_record =
     \<lparr>from_table = ''Counterparty'', to_table = ''Trade'',
      join_condition = ''Counterparty.Entity = Trade.Entity AND Counterparty.Counterparty ID = Trade.Reporting Counterparty ID'',
      rel_join_type = ''INNER'', rel_context = ''default'',
      rel_description = ''Join Counterparty with Trade''\<rparr>"

definition unequal_edge :: edge_data where
  "unequal_edge =
     \<lparr>source_columns = [''Entity'', ''Counterparty ID''],
      target_columns = [''Reporting Counterparty ID''],
      join_type = ''INNER'', context_label = ''default'',
      description = ''Join Counterparty with Trade''\<rparr>"

definition unequal_kg :: TableKnowledgeGraph where
  "unequal_kg =
     \<lparr>kg_graph = \<lparr>nodes = [(''Counterparty'', None), (''Trade'', None)],
                  edges = [(''Counterparty'', ''Trade'', unequal_edge)]\<rparr>,
      schemas = [], relationships = [unequal_rel]\<rparr>"

text \<open>
  The three tables of the Joins sheet and a table \<^verbatim>\<open>Limits\<close> that has a schema and no
  relationship: Trade and Concentration are connected through Counterparty only.
\<close>

definition bridge_kg :: TableKnowledgeGraph where
  "bridge_kg =
     \<lparr>kg_graph = \<lparr>nodes = [(''Limits'', Some [''Limit ID'']), (''Counterparty'', None),
                           (''Trade'', None), (''Concentration'', None)],
                  edges = [(''Counterparty'', ''Trade'', trade_edge),
                           (''Counterparty'', ''Concentration'', country_edge)]\<rparr>,
      schemas = [(''Limits'', [[(''name'', ''Limit ID'')]])],
      relationships = [trade_rel, country_rel]\<rparr>"

text \<open>The record of the default edge declared from Concentration to Counterparty.\<close>

definition reversed_default_record :: join_record where
  "reversed_default_record =
     \<lparr>from_table = ''Concentration'', to_table = ''Counterparty'',
      join_condition = ''Concentration.Entity = Counterparty.Entity AND Concentration.Concentration ID = Counterparty.Counterparty ID'',
      rel_join_type = ''INNER'', rel_context = ''default'',
      rel_description = ''Join Concentration with Counterparty''\<rparr>"

text \<open>A relationship with three source columns and two target columns.\<close>

definition surplus_rel :: pydict where
  "surplus_rel =
     [(''table1'', ''Counterparty''), (''table2'', ''Trade''),
      (''join_key_1'', ''Entity+Counterparty ID+Trade Date''),
      (''join_key_2'', ''Entity+Reporting Counterparty ID'')]"

definition surplus_edge :: edge_data where
  "surplus_edge =
     \<lparr>source_columns = [''Entity'', ''Counterparty ID'', ''Trade Date''],
      target_columns = [''Entity'', ''Reporting Counterparty ID''],
      join_type = ''INNER'', context_label = ''default'',
      description = ''Join Counterparty with Trade''\<rparr>"

definition surplus_kg :: TableKnowledgeGraph where
  "surplus_kg =
     \<lparr>kg_graph = \<lparr>nodes = [(''Counterparty'', None), (''Trade'', None)],
                  edges = [(''Counterparty'', ''Trade'', surplus_edge)]\<rparr>,
      schemas = [], relationships = [surplus_rel]\<rparr>"

section \<open>Properties of the join resolver\<close>

text \<open>Unfolding sets for evaluating the definitions on concrete inputs.\<close>

lemmas string_ops =
  parse_join_key_def strip_def is_space_def lower_def lower_char_def upper_lower_table_def

lemmas graph_ops =
  add_edge_def touch_node_def add_node_def has_node_def empty_graph_def get_edge_data_def has_edge_def

lemmas build_ops =
  init_def build_graph_def add_relationship_def getitem_def get_default_def

lemmas join_ops =
  get_join_relationships_def pair_joins_def direction_joins_def skip_edge_def
  has_context_specific_edges_def make_record_def join_conditions_def

lemmas path_ops =
  get_all_tables_needed_def shortest_path_def bfs.simps expand_def adjacent_def has_edge_def has_node_def

subsection \<open>The shape of the result\<close>

lemma edge_loop_filter:
  "edge_loop ctx edges_dict start finish eds =
     map (make_record start finish) (filter (\<lambda>ed. \<not> skip_edge ctx edges_dict ed) eds)"
  by (induction eds) auto

lemma has_edge_get_edge_data: "has_edge g u v \<longleftrightarrow> get_edge_data g u v \<noteq> []"
  by (auto simp: has_edge_def get_edge_data_def list_ex_iff filter_empty_conv)

lemma direction_joins_included:
  "direction_joins g ctx u v = map (make_record u v) (included_edges g ctx u v)"
  by (simp add: direction_joins_def included_edges_def edge_loop_filter has_edge_get_edge_data Let_def)

lemma direction_joins_endpoints:
  "r \<in> set (direction_joins g ctx u v) \<Longrightarrow> from_table r = u \<and> to_table r = v"
  by (auto simp: direction_joins_included make_record_def)

lemma filter_direction_joins:
  "filter (\<lambda>r. from_table r = a \<and> to_table r = b) (direction_joins g ctx u v) =
     (if u = a \<and> v = b then direction_joins g ctx a b else [])"
  by (auto simp: filter_empty_conv dest: direction_joins_endpoints intro!: filter_True)

lemma index_pairs_subset: "(u, v) \<in> set (index_pairs xs) \<Longrightarrow> u \<in> set xs \<and> v \<in> set xs"
  by (induction xs) auto

lemma index_pairs_distinct_neq: "distinct xs \<Longrightarrow> (u, v) \<in> set (index_pairs xs) \<Longrightarrow> u \<noteq> v"
  by (induction xs) (auto dest: index_pairs_subset)

lemma filter_Pair_row:
  "distinct xs \<Longrightarrow> a \<noteq> b \<Longrightarrow>
   filter (\<lambda>p. p = (a, b) \<or> p = (b, a)) (map (Pair x) xs) =
     (if x = a \<and> b \<in> set xs then [(a, b)] else if x = b \<and> a \<in> set xs then [(b, a)] else [])"
  by (induction xs) (auto simp: filter_empty_conv)

lemma filter_index_pairs_none:
  "a \<notin> set xs \<or> b \<notin> set xs \<Longrightarrow> filter (\<lambda>p. p = (a, b) \<or> p = (b, a)) (index_pairs xs) = []"
  by (auto simp: filter_empty_conv dest: index_pairs_subset)

lemma filter_index_pairs_one:
  "distinct xs \<Longrightarrow> a \<noteq> b \<Longrightarrow> a \<in> set xs \<Longrightarrow> b \<in> set xs \<Longrightarrow>
   filter (\<lambda>p. p = (a, b) \<or> p = (b, a)) (index_pairs xs) = [(a, b)] \<or>
   filter (\<lambda>p. p = (a, b) \<or> p = (b, a)) (index_pairs xs) = [(b, a)]"
proof (induction xs)
  case Nil
  then show ?case by simp
next
  case (Cons x xs)
  show ?case
  proof (cases "x = a \<or> x = b")
    case True
    then have "filter (\<lambda>p. p = (a, b) \<or> p = (b, a)) (index_pairs xs) = []"
      using Cons.prems by (intro filter_index_pairs_none) auto
    then show ?thesis using Cons.prems True by (auto simp: filter_Pair_row)
  next
    case False
    then have "filter (\<lambda>p. p = (a, b) \<or> p = (b, a)) (map (Pair x) xs) = []"
      by (auto simp: filter_empty_conv)
    then show ?thesis using Cons False by auto
  qed
qed

lemma concat_map_filter_support:
  "(\<And>x. x \<in> set xs \<Longrightarrow> \<not> Q x \<Longrightarrow> h x = []) \<Longrightarrow>
   concat (map h xs) = concat (map h (filter Q xs))"
  by (induction xs) auto

lemma filter_pair_joins:
  "u \<noteq> v \<Longrightarrow> a \<noteq> b \<Longrightarrow>
   filter (\<lambda>r. from_table r = a \<and> to_table r = b) (pair_joins g ctx u v) =
     (if (u, v) = (a, b) \<or> (u, v) = (b, a) then direction_joins g ctx a b else [])"
  by (auto simp: pair_joins_def filter_direction_joins)

lemma filter_get_join_relationships:
  assumes "distinct tables" "a \<noteq> b" "a \<in> set tables" "b \<in> set tables"
  shows "filter (\<lambda>r. from_table r = a \<and> to_table r = b) (get_join_relationships self tables ctx) =
           direction_joins (kg_graph self) ctx a b"
proof -
  let ?g = "kg_graph self"
  let ?P = "\<lambda>r. from_table r = a \<and> to_table r = b"
  let ?Q = "\<lambda>p. p = (a, b) \<or> p = (b, a)"
  let ?h = "\<lambda>p. filter ?P (case p of (s, t) \<Rightarrow> pair_joins ?g ctx s t)"
  have h: "?h p = (if ?Q p then direction_joins ?g ctx a b else [])" if "p \<in> set (index_pairs tables)" for p
  proof -
    obtain u v where p: "p = (u, v)" by (cases p)
    with that assms(1) have "u \<noteq> v" by (auto dest: index_pairs_distinct_neq)
    then show ?thesis using assms(2) p by (simp add: filter_pair_joins)
  qed
  have "filter ?P (get_join_relationships self tables ctx) = concat (map ?h (index_pairs tables))"
    by (simp add: get_join_relationships_def filter_concat comp_def)
  also have "\<dots> = concat (map ?h (filter ?Q (index_pairs tables)))"
    by (rule concat_map_filter_support) (simp add: h)
  also have "\<dots> = direction_joins ?g ctx a b"
    using filter_index_pairs_one[OF assms] assms(2) by (auto simp: filter_pair_joins)
  finally show ?thesis .
qed

subsection \<open>Construction\<close>

lemma edges_add_node [simp]: "edges (add_node n cols g) = edges g"
  by (simp add: add_node_def)

lemma edges_touch_node [simp]: "edges (touch_node n g) = edges g"
  by (simp add: touch_node_def)

lemma edges_add_edge [simp]: "edges (add_edge u v d g) = edges g @ [(u, v, d)]"
  by (simp add: add_edge_def Let_def)

lemma add_tables_edges: "add_tables schs g = Inr g' \<Longrightarrow> edges g' = edges g"
  by (induction schs g rule: add_tables.induct) (auto split: sum.splits)

lemma column_names_complete:
  "list_all (\<lambda>col. map_of col ''name'' \<noteq> None) cols \<Longrightarrow> \<exists>ns. column_names cols = Inr ns"
  by (induction cols) (auto simp: getitem_def split: option.splits)

lemma add_tables_complete: "schema_complete schs \<Longrightarrow> \<exists>g'. add_tables schs g = Inr g'"
proof (induction schs g rule: add_tables.induct)
  case (1 g)
  then show ?case by simp
next
  case (2 table_name columns rest g)
  from "2.prems" obtain ns where ns: "column_names columns = Inr ns"
    using column_names_complete by (auto simp: schema_complete_def)
  from "2.prems" have "schema_complete rest" by (simp add: schema_complete_def)
  with "2.IH"[OF ns] ns show ?case by simp
qed

lemma add_relationship_complete:
  "rel_complete rel \<Longrightarrow> add_relationship rel g =
     Inr (add_edge (fst (recorded_edge rel)) (fst (snd (recorded_edge rel))) (snd (snd (recorded_edge rel))) g)"
  by (auto simp: rel_complete_def add_relationship_def getitem_def recorded_edge_def Let_def)

lemma add_relationship_Inr:
  "add_relationship rel g = Inr g' \<Longrightarrow> rel_complete rel"
  by (auto simp: rel_complete_def add_relationship_def getitem_def split: option.splits sum.splits)

lemma add_relationships_complete:
  "list_all rel_complete rels \<Longrightarrow>
   \<exists>g'. add_relationships rels g = Inr g' \<and> edges g' = edges g @ map recorded_edge rels"
proof (induction rels arbitrary: g)
  case Nil
  then show ?case by simp
next
  case (Cons rel rels)
  then have c: "rel_complete rel" and cs: "list_all rel_complete rels" by simp_all
  let ?g = "add_edge (fst (recorded_edge rel)) (fst (snd (recorded_edge rel))) (snd (snd (recorded_edge rel))) g"
  from Cons.IH[OF cs, of ?g] obtain g' where
    "add_relationships rels ?g = Inr g'" "edges g' = edges ?g @ map recorded_edge rels" by blast
  then show ?case by (simp add: add_relationship_complete[OF c])
qed

lemma add_relationships_Inr:
  "add_relationships rels g = Inr g' \<Longrightarrow> list_all rel_complete rels"
proof (induction rels arbitrary: g)
  case Nil
  then show ?case by simp
next
  case (Cons rel rels)
  then show ?case by (auto split: sum.splits dest: add_relationship_Inr)
qed

lemma init_edges:
  assumes "init schs rels = Inr self"
  shows "edges (kg_graph self) = map recorded_edge rels"
proof -
  from assms obtain g0 g where g0: "add_tables schs empty_graph = Inr g0"
    and g: "add_relationships rels g0 = Inr g" and self: "self = \<lparr>kg_graph = g, schemas = schs, relationships = rels\<rparr>"
    by (auto simp: init_def build_graph_def split: sum.splits)
  from add_relationships_Inr[OF g] add_relationships_complete[of rels g0] g
  have "edges g = edges g0 @ map recorded_edge rels" by auto
  moreover have "edges g0 = []" using add_tables_edges[OF g0] by (simp add: empty_graph_def)
  ultimately show ?thesis using self by simp
qed

text \<open>
  Claim C2, as amended.  Graph construction does not compare the lengths of the two column
  lists.  When every column dictionary holds \<^verbatim>\<open>name\<close> and every relationship holds
  \<^verbatim>\<open>table1\<close>, \<^verbatim>\<open>table2\<close>, \<^verbatim>\<open>join_key_1\<close> and \<^verbatim>\<open>join_key_2\<close>, construction
  returns normally and the graph holds, in order, one edge per relationship with the two
  keys split on \<^verbatim>\<open>+\<close> and trimmed, whatever their lengths.
\<close>

theorem build_records_every_complete_relationship:
  assumes "schema_complete schs" and "list_all rel_complete rels"
  shows "\<exists>self. init schs rels = Inr self \<and> edges (kg_graph self) = map recorded_edge rels"
proof -
  from add_tables_complete[OF assms(1)] obtain g0 where g0: "add_tables schs empty_graph = Inr g0" by blast
  from add_relationships_complete[OF assms(2), of g0] obtain g where
    g: "add_relationships rels g0 = Inr g" by blast
  have "init schs rels = Inr \<lparr>kg_graph = g, schemas = schs, relationships = rels\<rparr>"
    by (simp add: init_def build_graph_def g0 g)
  then show ?thesis using init_edges by blast
qed

lemma unequal_rel_recorded:
  "recorded_edge unequal_rel =
     (''Counterparty'', ''Trade'',
      \<lparr>source_columns = [''Entity'', ''Counterparty ID''],
       target_columns = [''Reporting Counterparty ID''],
       join_type = ''INNER'', context_label = ''default'',
       description = ''Join Counterparty with Trade''\<rparr>)"
  by (simp add: recorded_edge_def unequal_rel_def parse_join_key_def strip_def is_space_def get_default_def Let_def)

text \<open>The same at a relationship with two source columns and one target column.\<close>

theorem build_records_every_complete_relationship_witness:
  "schema_complete [] \<and> list_all rel_complete [unequal_rel] \<and>
   (\<exists>self. init [] [unequal_rel] = Inr self \<and>
      edges (kg_graph self) =
        [(''Counterparty'', ''Trade'',
          \<lparr>source_columns = [''Entity'', ''Counterparty ID''],
           target_columns = [''Reporting Counterparty ID''],
           join_type = ''INNER'', context_label = ''default'',
           description = ''Join Counterparty with Trade''\<rparr>)])"
proof -
  have a: "schema_complete []" by (simp add: schema_complete_def)
  have b: "list_all rel_complete [unequal_rel]" by (simp add: rel_complete_def unequal_rel_def)
  from build_records_every_complete_relationship[OF a b] show ?thesis
    using a b by (simp add: unequal_rel_recorded)
qed

lemma unequal_kg_built: "init [] [unequal_rel] = Inr unequal_kg"
  by (simp add: build_ops graph_ops string_ops unequal_rel_def unequal_kg_def unequal_edge_def)

text \<open>
  Claim C2 as stated fails: a relationship whose keys parse into two and one columns is
  recorded as an edge, and construction returns the object.
\<close>

theorem unequal_keys_are_recorded:
  "init [] [unequal_rel] = Inr unequal_kg \<and>
   edges (kg_graph unequal_kg) = [(''Counterparty'', ''Trade'', unequal_edge)] \<and>
   length (source_columns unequal_edge) = 2 \<and> length (target_columns unequal_edge) = 1"
  by (simp add: build_ops graph_ops string_ops unequal_rel_def unequal_kg_def unequal_edge_def)

subsection \<open>Rendering\<close>

lemma join_Cons: "join sep (p # ps) = p @ concat (map (\<lambda>q. sep @ q) ps)"
  by (induction ps arbitrary: p) auto

lemma join_conditions_nth:
  "join_conditions start finish ed =
     map (equality start finish ed) [0..<min (length (source_columns ed)) (length (target_columns ed))]"
  by (auto simp: join_conditions_def equality_def list_eq_iff_nth_eq)

lemma join_and_chain:
  assumes "1 \<le> n"
  shows "join '' AND '' (map (equality start finish ed) [0..<n]) = and_chain start finish ed n"
proof -
  from assms have "[0..<n] = 0 # [1..<n]" by (simp add: upt_conv_Cons)
  then show ?thesis by (simp add: join_Cons and_chain_def comp_def del: upt_Suc)
qed

lemma filter_get_join_relationships_included:
  assumes "distinct tables" "a \<noteq> b" "a \<in> set tables" "b \<in> set tables"
  shows "filter (\<lambda>r. from_table r = a \<and> to_table r = b) (get_join_relationships self tables ctx) =
           map (make_record a b) (included_edges (kg_graph self) ctx a b)"
  using filter_get_join_relationships[OF assms] by (simp add: direction_joins_included)

lemma get_join_relationships_member:
  assumes "r \<in> set (get_join_relationships self tables ctx)"
  shows "\<exists>ed \<in> set (included_edges (kg_graph self) ctx (from_table r) (to_table r)).
           r = make_record (from_table r) (to_table r) ed"
proof -
  from assms obtain u v where "r \<in> set (direction_joins (kg_graph self) ctx u v)"
    by (auto simp: get_join_relationships_def pair_joins_def)
  then show ?thesis
    by (auto simp: direction_joins_included make_record_def)
qed

lemma included_edges_subset:
  "ed \<in> set (included_edges g ctx u v) \<Longrightarrow> (u, v, ed) \<in> set (edges g)"
  by (auto simp: included_edges_def get_edge_data_def)

lemma emitted_record_of_an_edge:
  assumes "r \<in> set (get_join_relationships self tables ctx)"
  shows "\<exists>ed. (from_table r, to_table r, ed) \<in> set (edges (kg_graph self)) \<and>
           join_condition r =
             join '' AND '' (map (equality (from_table r) (to_table r) ed)
               [0..<min (length (source_columns ed)) (length (target_columns ed))])"
proof -
  from get_join_relationships_member[OF assms] obtain ed where
    ed: "ed \<in> set (included_edges (kg_graph self) ctx (from_table r) (to_table r))"
    and r: "r = make_record (from_table r) (to_table r) ed" by blast
  have "join_condition r = join '' AND '' (join_conditions (from_table r) (to_table r) ed)"
    by (subst r) (simp add: make_record_def)
  with included_edges_subset[OF ed] show ?thesis
    by (auto simp: join_conditions_nth)
qed

lemma country_kg_built:
  "init [] [country_rel, default_rel ''Entity+Counterparty ID'' ''Entity+Concentration ID''] = Inr country_kg"
  by (simp add: build_ops graph_ops string_ops country_rel_def default_rel_def country_kg_def
      country_edge_def fallback_edge_def)

lemma two_way_kg_built: "init [] [country_rel, reversed_default_rel] = Inr two_way_kg"
  by (simp add: build_ops graph_ops string_ops country_rel_def reversed_default_rel_def two_way_kg_def
      country_edge_def reversed_default_edge_def)

lemma trade_kg_built: "init [] [trade_rel] = Inr trade_kg"
  by (simp add: build_ops graph_ops string_ops trade_rel_def trade_kg_def trade_edge_def)

text \<open>
  Claim C6.  Take a list of distinct tables and two of them, \<open>a\<close> and \<open>b\<close>.  The records
  returned with \<open>a\<close> as \<^verbatim>\<open>from_table\<close> and \<open>b\<close> as \<^verbatim>\<open>to_table\<close> are, position by
  position, the renderings of the edges recorded from \<open>a\<close> to \<open>b\<close> that the context filter
  keeps.  For such an edge whose source and target columns both have length \<open>n \<ge> 1\<close>, the
  \<^verbatim>\<open>join_condition\<close> is exactly the \<open>n\<close> equalities
  \<^verbatim>\<open>a.src = b.tgt\<close> in declared column order, chained with \<^verbatim>\<open> AND \<close>, under the
  edge's own from/to labelling.
\<close>

theorem equal_length_edges_render_every_column:
  assumes "distinct tables" "a \<noteq> b" "a \<in> set tables" "b \<in> set tables"
  shows "let recs = filter (\<lambda>r. from_table r = a \<and> to_table r = b) (get_join_relationships self tables ctx);
             inc = included_edges (kg_graph self) ctx a b
         in length recs = length inc \<and>
            (\<forall>k < length inc. \<forall>n \<ge> 1.
               length (source_columns (inc ! k)) = n \<and> length (target_columns (inc ! k)) = n \<longrightarrow>
               join_condition (recs ! k) = and_chain a b (inc ! k) n)"
  unfolding Let_def filter_get_join_relationships_included[OF assms]
  by (auto simp: make_record_def join_conditions_nth join_and_chain)

text \<open>
  The same at the country-level edge of two columns, the only edge kept for the context
  \<^verbatim>\<open>Country\<close>.
\<close>

theorem equal_length_edges_render_every_column_witness:
  "distinct [''Counterparty'', ''Concentration''] \<and> ''Counterparty'' \<noteq> ''Concentration'' \<and>
   included_edges (kg_graph country_kg) (Some ''Country'') ''Counterparty'' ''Concentration'' = [country_edge] \<and>
   length (source_columns country_edge) = 2 \<and> length (target_columns country_edge) = 2 \<and>
   join_condition
     (filter (\<lambda>r. from_table r = ''Counterparty'' \<and> to_table r = ''Concentration'')
        (get_join_relationships country_kg [''Counterparty'', ''Concentration''] (Some ''Country'')) ! 0) =
     ''Counterparty.Entity = Concentration.Entity AND Counterparty.Counterparty Country = Concentration.Concentration Value''"
proof -
  have d: "distinct [''Counterparty'', ''Concentration'']" and n: "''Counterparty'' \<noteq> ''Concentration''"
    by simp_all
  have inc: "included_edges (kg_graph country_kg) (Some ''Country'') ''Counterparty'' ''Concentration'' = [country_edge]"
    by (simp add: included_edges_def country_kg_def get_edge_data_def skip_edge_def
        has_context_specific_edges_def country_edge_def fallback_edge_def string_ops Let_def)
  have len: "length (source_columns country_edge) = 2" "length (target_columns country_edge) = 2"
    by (simp_all add: country_edge_def)
  have chain: "and_chain ''Counterparty'' ''Concentration'' country_edge 2 =
     ''Counterparty.Entity = Concentration.Entity AND Counterparty.Counterparty Country = Concentration.Concentration Value''"
    by (simp add: and_chain_def equality_def country_edge_def upt_conv_Cons)
  from equal_length_edges_render_every_column[OF d n, of country_kg "Some ''Country''"]
  show ?thesis using inc len chain by (simp add: Let_def)
qed

lemma split_nonempty: "split sep s \<noteq> []"
  by (induction s) (auto split: list.splits)

lemma recorded_edge_columns:
  "recorded_edge rel = (u, v, ed) \<Longrightarrow> source_columns ed \<noteq> [] \<and> target_columns ed \<noteq> []"
  by (auto simp: recorded_edge_def Let_def parse_join_key_def split_nonempty)

lemma surplus_kg_built: "init [] [surplus_rel] = Inr surplus_kg"
  by (simp add: build_ops graph_ops string_ops surplus_rel_def surplus_kg_def surplus_edge_def)

text \<open>
  Claim C10.  Every edge stored in the graph, queried through its two end points with no
  context, is rendered: its record is in the list that \<open>get_join_relationships\<close> returns.
  With \<open>n\<close> the shorter of the lengths of its two column lists, the \<^verbatim>\<open>join_condition\<close>
  is, for \<open>n \<ge> 1\<close>, the equality of position 0 followed by \<^verbatim>\<open> AND \<close> and the equality of
  position \<open>i\<close> for each \<open>i\<close> from 1 below \<open>n\<close>, and nothing more: the surplus columns of the
  longer list do not appear.  For \<open>n = 0\<close> it is the empty string.  In a graph that
  construction returned, \<open>n \<ge> 1\<close> for every edge.
\<close>

theorem every_edge_renders_to_the_shorter_length:
  assumes "(u, v, ed) \<in> set (edges (kg_graph self))"
  shows "let n = min (length (source_columns ed)) (length (target_columns ed));
             r = make_record u v ed
         in r \<in> set (get_join_relationships self [u, v] None) \<and>
            (1 \<le> n \<longrightarrow> join_condition r = and_chain u v ed n) \<and>
            (n = 0 \<longrightarrow> join_condition r = []) \<and>
            (init schs rels = Inr self \<longrightarrow> 1 \<le> n)"
proof -
  let ?n = "min (length (source_columns ed)) (length (target_columns ed))"
  from assms have "ed \<in> set (get_edge_data (kg_graph self) u v)"
    by (force simp: get_edge_data_def)
  then have "make_record u v ed \<in> set (direction_joins (kg_graph self) None u v)"
    by (simp add: direction_joins_included included_edges_def skip_edge_def)
  then have emitted: "make_record u v ed \<in> set (get_join_relationships self [u, v] None)"
    by (simp add: get_join_relationships_def pair_joins_def)
  have cond: "join_condition (make_record u v ed) = join '' AND '' (map (equality u v ed) [0..<?n])"
    by (simp add: make_record_def join_conditions_nth)
  have pos: "join_condition (make_record u v ed) = and_chain u v ed ?n" if "1 \<le> ?n"
    using cond join_and_chain[OF that] by simp
  have zero: "join_condition (make_record u v ed) = []" if "?n = 0"
    using cond that by simp
  have built: "1 \<le> ?n" if "init schs rels = Inr self"
  proof -
    from init_edges[OF that] assms obtain rel where "recorded_edge rel = (u, v, ed)" by auto
    from recorded_edge_columns[OF this] show ?thesis
      by (cases "source_columns ed"; cases "target_columns ed") auto
  qed
  show ?thesis unfolding Let_def using emitted pos zero built by blast
qed

text \<open>
  The same at the edge built from a key of three columns and a key of two columns: two
  equalities are rendered, and \<^verbatim>\<open>Trade Date\<close> is dropped.
\<close>

theorem every_edge_renders_to_the_shorter_length_witness:
  "(''Counterparty'', ''Trade'', surplus_edge) \<in> set (edges (kg_graph surplus_kg)) \<and>
   init [] [surplus_rel] = Inr surplus_kg \<and>
   min (length (source_columns surplus_edge)) (length (target_columns surplus_edge)) = 2 \<and>
   make_record ''Counterparty'' ''Trade'' surplus_edge
     \<in> set (get_join_relationships surplus_kg [''Counterparty'', ''Trade''] None) \<and>
   join_condition (make_record ''Counterparty'' ''Trade'' surplus_edge) =
     ''Counterparty.Entity = Trade.Entity AND Counterparty.Counterparty ID = Trade.Reporting Counterparty ID''"
proof -
  have e: "(''Counterparty'', ''Trade'', surplus_edge) \<in> set (edges (kg_graph surplus_kg))"
    by (simp add: surplus_kg_def)
  have n: "min (length (source_columns surplus_edge)) (length (target_columns surplus_edge)) = 2"
    by (simp add: surplus_edge_def)
  have chain: "and_chain ''Counterparty'' ''Trade'' surplus_edge 2 =
     ''Counterparty.Entity = Trade.Entity AND Counterparty.Counterparty ID = Trade.Reporting Counterparty ID''"
    by (simp add: and_chain_def equality_def surplus_edge_def upt_conv_Cons)
  from every_edge_renders_to_the_shorter_length[OF e, of "[]" "[surplus_rel]"]
  have "make_record ''Counterparty'' ''Trade'' surplus_edge
          \<in> set (get_join_relationships surplus_kg [''Counterparty'', ''Trade''] None)"
    and "join_condition (make_record ''Counterparty'' ''Trade'' surplus_edge) =
          and_chain ''Counterparty'' ''Trade'' surplus_edge 2"
    by (simp_all add: Let_def n)
  with e n chain surplus_kg_built show ?thesis by simp
qed

subsection \<open>No context\<close>

lemma length_filter_disj:
  "(\<And>x. \<not> (P x \<and> Q x)) \<Longrightarrow>
   length (filter (\<lambda>x. P x \<or> Q x) xs) = length (filter P xs) + length (filter Q xs)"
  by (induction xs) auto

lemma length_filter_edges_disj:
  "a \<noteq> b \<Longrightarrow>
   length (filter (\<lambda>(u, v, ed). (u = a \<and> v = b) \<or> (u = b \<and> v = a)) es) =
     length (filter (\<lambda>(u, v, ed). u = a \<and> v = b) es) + length (filter (\<lambda>(u, v, ed). u = b \<and> v = a) es)"
  by (induction es) auto

lemma included_edges_no_context [simp]: "included_edges g None u v = get_edge_data g u v"
  by (simp add: included_edges_def skip_edge_def)

text \<open>
  Claim C5.  With no context, for a list of distinct tables and two of them, the number of
  records returned for the pair, in either direction, is the number of edges recorded
  between the two tables in both directions together.
\<close>

theorem no_context_keeps_every_edge:
  assumes "distinct tables" "a \<noteq> b" "a \<in> set tables" "b \<in> set tables"
  shows "length (filter (\<lambda>r. (from_table r = a \<and> to_table r = b) \<or> (from_table r = b \<and> to_table r = a))
                   (get_join_relationships self tables None)) =
         length (filter (\<lambda>(u, v, ed). (u = a \<and> v = b) \<or> (u = b \<and> v = a)) (edges (kg_graph self)))"
proof -
  let ?out = "get_join_relationships self tables None"
  let ?g = "kg_graph self"
  have ba: "distinct tables" "b \<noteq> a" "b \<in> set tables" "a \<in> set tables" using assms by auto
  have "length (filter (\<lambda>r. (from_table r = a \<and> to_table r = b) \<or> (from_table r = b \<and> to_table r = a)) ?out)
        = length (filter (\<lambda>r. from_table r = a \<and> to_table r = b) ?out)
          + length (filter (\<lambda>r. from_table r = b \<and> to_table r = a) ?out)"
    using assms(2) by (intro length_filter_disj) auto
  also have "\<dots> = length (get_edge_data ?g a b) + length (get_edge_data ?g b a)"
    by (simp add: filter_get_join_relationships_included[OF assms]
        filter_get_join_relationships_included[OF ba])
  also have "\<dots> = length (filter (\<lambda>(u, v, ed). u = a \<and> v = b) (edges ?g))
                  + length (filter (\<lambda>(u, v, ed). u = b \<and> v = a) (edges ?g))"
    by (simp add: get_edge_data_def)
  also have "\<dots> = length (filter (\<lambda>(u, v, ed). (u = a \<and> v = b) \<or> (u = b \<and> v = a)) (edges ?g))"
    using assms(2) by (simp add: length_filter_edges_disj)
  finally show ?thesis .
qed

text \<open>
  The same at a graph with one edge in each direction between the two tables.
\<close>

theorem no_context_keeps_every_edge_witness:
  "distinct [''Counterparty'', ''Concentration''] \<and> ''Counterparty'' \<noteq> ''Concentration'' \<and>
   length (filter (\<lambda>r. (from_table r = ''Counterparty'' \<and> to_table r = ''Concentration'') \<or>
                        (from_table r = ''Concentration'' \<and> to_table r = ''Counterparty''))
             (get_join_relationships two_way_kg [''Counterparty'', ''Concentration''] None)) = 2"
proof -
  have d: "distinct [''Counterparty'', ''Concentration'']" and n: "''Counterparty'' \<noteq> ''Concentration''"
    by simp_all
  have "length (filter (\<lambda>(u, v, ed). (u = ''Counterparty'' \<and> v = ''Concentration'') \<or>
                                      (u = ''Concentration'' \<and> v = ''Counterparty''))
                  (edges (kg_graph two_way_kg))) = 2"
    by (simp add: two_way_kg_def)
  with no_context_keeps_every_edge[OF d n, of two_way_kg] show ?thesis by simp
qed

subsection \<open>Context filtering\<close>

lemma lower_default: "lower ''default'' = ''default''"
  by (simp add: string_ops)

lemma skip_default_edge:
  assumes "c \<noteq> []" "context_label ed = ''default''"
  shows "skip_edge (Some c) eds ed \<longleftrightarrow>
           \<not> str_in (lower c) ''default'' \<and>
           (\<exists>ed' \<in> set eds. context_label ed' \<noteq> ''default'' \<and> str_in (lower c) (lower (context_label ed')))"
  using assms by (auto simp: skip_edge_def has_context_specific_edges_def Let_def list_ex_iff lower_default)

lemma default_records:
  assumes "distinct tables" "a \<noteq> b" "a \<in> set tables" "b \<in> set tables"
  shows "filter (\<lambda>r. from_table r = a \<and> to_table r = b \<and> rel_context r = ''default'')
           (get_join_relationships self tables ctx) =
         map (make_record a b)
           (filter (\<lambda>ed. context_label ed = ''default'') (included_edges (kg_graph self) ctx a b))"
proof -
  have "filter (\<lambda>r. from_table r = a \<and> to_table r = b \<and> rel_context r = ''default'')
           (get_join_relationships self tables ctx) =
        filter (\<lambda>r. rel_context r = ''default'')
          (filter (\<lambda>r. from_table r = a \<and> to_table r = b) (get_join_relationships self tables ctx))"
    by (simp add: conj_commute conj_left_commute)
  also have "\<dots> = map (make_record a b)
           (filter (\<lambda>ed. context_label ed = ''default'') (included_edges (kg_graph self) ctx a b))"
    by (simp add: filter_get_join_relationships_included[OF assms] filter_map comp_def make_record_def)
  finally show ?thesis .
qed

text \<open>
  Claim C1 as stated fails.  With the requested context \<^verbatim>\<open>default\<close> and a single
  default edge between Counterparty and Trade, the edge's own label contains the context, so
  an edge of the pair has a context match; the default edge is emitted all the same, since
  line 123 keeps every edge whose label matches.
\<close>

theorem default_edge_emitted_beside_its_own_match:
  "get_join_relationships trade_kg [''Counterparty'', ''Trade''] (Some ''default'') = [trade_record] \<and>
   rel_context trade_record = ''default'' \<and>
   get_edge_data (kg_graph trade_kg) ''Counterparty'' ''Trade'' = [trade_edge] \<and>
   str_in (lower ''default'') (lower (context_label trade_edge))"
  by (simp add: join_ops graph_ops string_ops trade_kg_def trade_edge_def trade_record_def Let_def)

text \<open>
  The search for context-specific edges (lines 114 to 118) reads \<^verbatim>\<open>edges_dict\<close>, the
  edges of the direction at hand.  A match recorded in the opposite direction is not seen:
  here the default edge from Concentration to Counterparty is emitted beside the
  country-level edge from Counterparty to Concentration.
\<close>

lemma opposite_direction_match_is_not_seen:
  "get_join_relationships two_way_kg [''Counterparty'', ''Concentration''] (Some ''Country'') =
     [country_record, make_record ''Concentration'' ''Counterparty'' reversed_default_edge]"
  by (simp add: join_ops graph_ops string_ops two_way_kg_def country_edge_def
      reversed_default_edge_def country_record_def Let_def)

text \<open>
  Claim C1, as amended.  Take a list of distinct tables, two of them \<open>a\<close> and \<open>b\<close>, and
  a non-empty context.  Of the edges recorded from \<open>a\<close> to \<open>b\<close> with the label
  \<^verbatim>\<open>default\<close>: all are emitted when the lowered context occurs in \<^verbatim>\<open>default\<close> itself;
  all are emitted when no edge between the two tables, in either direction, has a label
  containing the context; none is emitted when the context does not occur in
  \<^verbatim>\<open>default\<close> and some edge recorded from \<open>a\<close> to \<open>b\<close> has a label containing it.
\<close>

theorem default_edges_are_the_fallback:
  assumes "distinct tables" "a \<noteq> b" "a \<in> set tables" "b \<in> set tables" "c \<noteq> []"
  shows "let g = kg_graph self;
             emitted = filter (\<lambda>r. from_table r = a \<and> to_table r = b \<and> rel_context r = ''default'')
                         (get_join_relationships self tables (Some c));
             recorded = map (make_record a b)
                          (filter (\<lambda>ed. context_label ed = ''default'') (get_edge_data g a b))
         in (str_in (lower c) ''default'' \<longrightarrow> emitted = recorded) \<and>
            (\<not> (\<exists>ed \<in> set (get_edge_data g a b @ get_edge_data g b a).
                   str_in (lower c) (lower (context_label ed))) \<longrightarrow> emitted = recorded) \<and>
            (\<not> str_in (lower c) ''default'' \<and>
             (\<exists>ed \<in> set (get_edge_data g a b). str_in (lower c) (lower (context_label ed))) \<longrightarrow>
               emitted = [])"
proof -
  let ?eds = "get_edge_data (kg_graph self) a b"
  let ?D = "\<lambda>ed. context_label ed = ''default''"
  have inc: "filter ?D (included_edges (kg_graph self) (Some c) a b) =
             filter (\<lambda>ed. ?D ed \<and> \<not> skip_edge (Some c) ?eds ed) ?eds"
    by (simp add: included_edges_def conj_commute)
  have keep: "filter (\<lambda>ed. ?D ed \<and> \<not> skip_edge (Some c) ?eds ed) ?eds = filter ?D ?eds"
    if "str_in (lower c) ''default'' \<or>
        \<not> (\<exists>ed' \<in> set ?eds. context_label ed' \<noteq> ''default'' \<and> str_in (lower c) (lower (context_label ed')))"
    using that by (intro filter_cong refl) (auto simp: skip_default_edge[OF assms(5)])
  have drop: "filter (\<lambda>ed. ?D ed \<and> \<not> skip_edge (Some c) ?eds ed) ?eds = []"
    if "\<not> str_in (lower c) ''default''"
       "\<exists>ed \<in> set ?eds. str_in (lower c) (lower (context_label ed))"
  proof -
    from that obtain ed' where "ed' \<in> set ?eds" "str_in (lower c) (lower (context_label ed'))" by blast
    moreover from this that(1) have "context_label ed' \<noteq> ''default''"
      by (auto simp: lower_default)
    ultimately show ?thesis using that(1)
      by (auto simp: filter_empty_conv skip_default_edge[OF assms(5)])
  qed
  show ?thesis
    unfolding Let_def default_records[OF assms(1-4)] inc
    using keep drop by auto
qed

text \<open>
  The same at the graph with a country-level and a default edge from Counterparty to
  Concentration, for the context \<^verbatim>\<open>Country\<close>: no default record is emitted.
\<close>

theorem default_edges_are_the_fallback_witness:
  "distinct [''Counterparty'', ''Concentration''] \<and> ''Counterparty'' \<noteq> ''Concentration'' \<and>
   ''Country'' \<noteq> [] \<and> \<not> str_in (lower ''Country'') ''default'' \<and>
   get_edge_data (kg_graph country_kg) ''Counterparty'' ''Concentration'' = [country_edge, fallback_edge] \<and>
   str_in (lower ''Country'') (lower (context_label country_edge)) \<and>
   filter (\<lambda>r. from_table r = ''Counterparty'' \<and> to_table r = ''Concentration'' \<and> rel_context r = ''default'')
     (get_join_relationships country_kg [''Counterparty'', ''Concentration''] (Some ''Country'')) = []"
proof -
  have d: "distinct [''Counterparty'', ''Concentration'']" and n: "''Counterparty'' \<noteq> ''Concentration''"
    and c: "''Country'' \<noteq> []"
    by simp_all
  have nd: "\<not> str_in (lower ''Country'') ''default''" by (simp add: string_ops)
  have eds: "get_edge_data (kg_graph country_kg) ''Counterparty'' ''Concentration'' = [country_edge, fallback_edge]"
    by (simp add: country_kg_def get_edge_data_def)
  have m: "str_in (lower ''Country'') (lower (context_label country_edge))"
    by (simp add: string_ops country_edge_def)
  from default_edges_are_the_fallback[OF d n _ _ c, of country_kg]
  show ?thesis using nd eds m by (simp add: Let_def)
qed

subsection \<open>The country-level scenario\<close>

lemma recorded_country_rel:
  "recorded_edge country_rel = (''Counterparty'', ''Concentration'', country_edge)"
  by (simp add: recorded_edge_def country_rel_def country_edge_def get_default_def string_ops Let_def)

lemma recorded_default_rel:
  "recorded_edge (default_rel k1 k2) =
     (''Counterparty'', ''Concentration'',
      \<lparr>source_columns = parse_join_key k1, target_columns = parse_join_key k2,
       join_type = ''INNER'', context_label = ''default'',
       description = ''Join Counterparty with Concentration''\<rparr>)"
  by (simp add: recorded_edge_def default_rel_def get_default_def Let_def)

text \<open>
  When the default edge is declared in the direction of the country-level edge, from
  Counterparty to Concentration, the context \<^verbatim>\<open>Country\<close> selects the country-level record
  alone, whatever the keys of the default edge, the order of declaration and the order of
  the two tables.
\<close>

lemma same_direction_default_is_suppressed:
  assumes "rels = [country_rel, default_rel k1 k2] \<or> rels = [default_rel k1 k2, country_rel]"
    and "tables = [''Counterparty'', ''Concentration''] \<or> tables = [''Concentration'', ''Counterparty'']"
    and "init schs rels = Inr self"
  shows "get_join_relationships self tables (Some ''Country'') = [country_record]"
proof -
  from init_edges[OF assms(3)] have "edges (kg_graph self) = map recorded_edge rels" .
  with assms(1,2) show ?thesis
    by (auto simp: recorded_country_rel recorded_default_rel join_ops get_edge_data_def has_edge_def
        string_ops country_edge_def country_record_def Let_def)
qed

text \<open>
  Claim C7 does not hold of the code.  The claim puts no direction on the default edge.
  Declared from Concentration to Counterparty, it lies in another \<^verbatim>\<open>edges_dict\<close> than the
  country-level edge; the search of lines 114 to 118 reads the edges of one direction and
  finds no context-specific edge beside it, so the default edge is returned with the
  country-level edge, where the claim has the country-level edge alone.
\<close>

theorem reversed_default_edge_is_returned_beside_the_country_edge:
  "init [] [country_rel, reversed_default_rel] = Inr two_way_kg \<and>
   get_join_relationships two_way_kg [''Counterparty'', ''Concentration''] (Some ''Country'') =
     [country_record, reversed_default_record] \<and>
   rel_context reversed_default_record = ''default''"
  by (simp add: two_way_kg_built join_ops graph_ops string_ops two_way_kg_def country_edge_def
      reversed_default_edge_def country_record_def reversed_default_record_def Let_def)

section \<open>Properties of connecting-table discovery\<close>

subsection \<open>The breadth-first search returns a shortest path\<close>

lemma within_Suc_subset: "within g s k \<subseteq> within g s (Suc k)"
  by auto



lemma is_walk_nonempty: "is_walk g p \<Longrightarrow> p \<noteq> []"
  by auto










lemma shortest_path_unknown:
  "\<not> has_node g s \<or> \<not> has_node g t \<Longrightarrow> shortest_path g s t = Inl NodeNotFound"
  by (auto simp: shortest_path_def)

lemma bfs_error: "bfs g t frontier unvisited = Inl e \<Longrightarrow> e = NetworkXNoPath"
proof (induction g t frontier unvisited rule: bfs.induct)
  case (1 g t frontier unvisited)
  from "1.prems" show ?case
    by (subst (asm) bfs.simps) (auto split: option.splits if_splits dest: "1.IH")
qed

lemma shortest_path_error:
  "shortest_path g a b = Inl e \<Longrightarrow> e = NodeNotFound \<or> e = NetworkXNoPath"
  by (auto simp: shortest_path_def split: if_splits dest: bfs_error)

subsection \<open>The loop over the pairs\<close>

lemma path_loop_unknown:
  "(a, b) \<in> set ps \<Longrightarrow> \<not> has_node g a \<or> \<not> has_node g b \<Longrightarrow> path_loop g ps acc = Inl NodeNotFound"
proof (induction ps arbitrary: acc)
  case Nil
  then show ?case by simp
next
  case (Cons q ps)
  obtain c d where q: "q = (c, d)" by (cases q)
  show ?case
  proof (cases "q = (a, b)")
    case True
    with q Cons.prems(2) show ?thesis by (simp add: shortest_path_unknown)
  next
    case False
    with Cons.prems have "(a, b) \<in> set ps" by simp
    from Cons.IH[OF this Cons.prems(2)] have ih: "\<And>acc. path_loop g ps acc = Inl NodeNotFound" .
    show ?thesis
    proof (cases "shortest_path g c d")
      case (Inl e)
      with shortest_path_error[OF Inl] show ?thesis using q ih by auto
    next
      case (Inr p)
      then show ?thesis using q ih by simp
    qed
  qed
qed

lemma index_pairs_covers:
  assumes "2 \<le> length xs" "x \<in> set xs"
  shows "\<exists>y. (x, y) \<in> set (index_pairs xs) \<or> (y, x) \<in> set (index_pairs xs)"
proof -
  from assms(1) obtain z z' zs where xs: "xs = z # z' # zs"
    by (cases xs; cases "tl xs") auto
  show ?thesis
  proof (cases "x = z")
    case True
    then have "(x, z') \<in> set (index_pairs xs)" by (simp add: xs)
    then show ?thesis by blast
  next
    case False
    with assms(2) xs have "(z, x) \<in> set (index_pairs xs)" by auto
    then show ?thesis by blast
  qed
qed


lemma bridge_kg_built:
  "init [(''Limits'', [[(''name'', ''Limit ID'')]])] [trade_rel, country_rel] = Inr bridge_kg"
  by (simp add: build_ops graph_ops string_ops trade_rel_def country_rel_def bridge_kg_def
      trade_edge_def country_edge_def)


lemma trade_to_limits: "shortest_path (kg_graph bridge_kg) ''Trade'' ''Limits'' = Inl NetworkXNoPath"
  by (simp add: path_ops bridge_kg_def)


lemma bridge_disconnected:
  "get_all_tables_needed bridge_kg [''Trade'', ''Limits''] = Inr {''Trade'', ''Limits''}"
  by (auto simp: get_all_tables_needed_def trade_to_limits)

text \<open>A list of one name visits no pair and returns that name, known or not.\<close>

lemma single_table_passes_through: "get_all_tables_needed self [t] = Inr {t}"
  by (simp add: get_all_tables_needed_def)

text \<open>
  Claim C3 does not hold of the code.  \<^verbatim>\<open>nx.shortest_path\<close> raises \<^verbatim>\<open>NodeNotFound\<close> for
  a name that is not a node, and line 162 catches \<^verbatim>\<open>NetworkXNoPath\<close> only: for every list
  of at least two names that contains a name unknown to the graph, \<open>get_all_tables_needed\<close>
  ends with \<^verbatim>\<open>NodeNotFound\<close> instead of returning.
\<close>

theorem unknown_table_raises_NodeNotFound:
  assumes "2 \<le> length tables" "t \<in> set tables" "\<not> has_node (kg_graph self) t"
  shows "get_all_tables_needed self tables = Inl NodeNotFound"
proof -
  from index_pairs_covers[OF assms(1,2)] obtain y where
    "(t, y) \<in> set (index_pairs tables) \<or> (y, t) \<in> set (index_pairs tables)" by blast
  then show ?thesis
    using assms(3) by (auto simp: get_all_tables_needed_def intro: path_loop_unknown)
qed

text \<open>
  The same for the request \<^verbatim>\<open>["Counterparty", "Customers"]\<close>, where \<^verbatim>\<open>Customers\<close> is
  not a table of the graph.
\<close>

theorem unknown_table_raises_NodeNotFound_witness:
  "2 \<le> length [''Counterparty'', ''Customers''] \<and> ''Customers'' \<in> set [''Counterparty'', ''Customers''] \<and>
   \<not> has_node (kg_graph bridge_kg) ''Customers'' \<and> has_node (kg_graph bridge_kg) ''Counterparty'' \<and>
   get_all_tables_needed bridge_kg [''Counterparty'', ''Customers''] = Inl NodeNotFound"
proof -
  have a: "2 \<le> length [''Counterparty'', ''Customers'']"
    and b: "''Customers'' \<in> set [''Counterparty'', ''Customers'']" by simp_all
  have c: "\<not> has_node (kg_graph bridge_kg) ''Customers''"
    and d: "has_node (kg_graph bridge_kg) ''Counterparty''"
    by (simp_all add: bridge_kg_def has_node_def)
  from unknown_table_raises_NodeNotFound[OF a b c] a b c d show ?thesis by simp
qed



section \<open>Properties of reading the response\<close>

lemma find_char_split:
  assumes "c \<notin> set pre"
  shows "find_char (pre @ c # rest) c = int (length pre)"
proof -
  have "takeWhile (\<lambda>x. x \<noteq> c) (pre @ c # rest) = pre"
    using assms by (induction pre) auto
  then show ?thesis by (simp add: find_char_def)
qed

lemma find_char_absent: "c \<notin> set s \<Longrightarrow> find_char s c = - 1"
  by (simp add: find_char_def)

lemma rfind_char_split:
  assumes "c \<notin> set post"
  shows "rfind_char (a @ c # post) c = int (length a)"
proof -
  have "c \<notin> set (rev post)" using assms by simp
  then have "takeWhile (\<lambda>x. x \<noteq> c) (rev post @ c # rev a) = rev post"
    by (induction "rev post") (auto simp: takeWhile_tail)
  then show ?thesis by (simp add: rfind_char_def)
qed

lemma rfind_char_before:
  assumes "c \<notin> set rest"
  shows "rfind_char (a @ rest) c < int (length a)"
proof (cases "c \<in> set a")
  case True
  then obtain a1 a2 where a: "a = a1 @ c # a2" and "c \<notin> set a2"
    by (auto dest: split_list_last)
  with assms have "c \<notin> set (a2 @ rest)" by simp
  from rfind_char_split[OF this, of a1] show ?thesis by (simp add: a)
next
  case False
  with assms show ?thesis by (simp add: rfind_char_def)
qed

lemma slice_between:
  "slice (pre @ c # mid @ d # post) (int (length pre)) (int (length (pre @ c # mid)) + 1) = c # mid @ [d]"
  by (simp add: slice_def nat_add_distrib)

lemma parse_response_braces:
  assumes c: "clean_response r = pre @ ''{'' @ mid @ ''}'' @ post"
    and pre: "CHR ''{'' \<notin> set pre" and post: "CHR ''}'' \<notin> set post"
  shows "parse_response loads r = loads (''{'' @ mid @ ''}'')"
proof -
  let ?c = "pre @ CHR ''{'' # mid @ CHR ''}'' # post"
  have eq: "clean_response r = ?c" using c by simp
  have s: "find_char ?c CHR ''{'' = int (length pre)" by (rule find_char_split[OF pre])
  have "?c = (pre @ CHR ''{'' # mid) @ CHR ''}'' # post" by simp
  then have f: "rfind_char ?c CHR ''}'' = int (length (pre @ CHR ''{'' # mid))"
    using rfind_char_split[OF post, of "pre @ CHR ''{'' # mid"] by simp
  have sl: "slice ?c (int (length pre)) (int (length (pre @ CHR ''{'' # mid)) + 1) = CHR ''{'' # mid @ [CHR ''}'']"
    by (rule slice_between)
  show ?thesis
    unfolding parse_response_def Let_def eq s f sl by simp
qed

lemma parse_response_whole:
  assumes "CHR ''{'' \<notin> set (clean_response r) \<or>
           (\<exists>a b. clean_response r = a @ ''{'' @ b \<and> CHR ''{'' \<notin> set a \<and> CHR ''}'' \<notin> set b)"
  shows "parse_response loads r = loads (clean_response r)"
  using assms
proof
  assume "CHR ''{'' \<notin> set (clean_response r)"
  then show ?thesis by (simp add: parse_response_def Let_def find_char_absent)
next
  assume "\<exists>a b. clean_response r = a @ ''{'' @ b \<and> CHR ''{'' \<notin> set a \<and> CHR ''}'' \<notin> set b"
  then obtain a b where eq: "clean_response r = a @ CHR ''{'' # b"
    and a: "CHR ''{'' \<notin> set a" and b: "CHR ''}'' \<notin> set b" by auto
  have s: "find_char (a @ CHR ''{'' # b) CHR ''{'' = int (length a)" by (rule find_char_split[OF a])
  have "CHR ''}'' \<notin> set (CHR ''{'' # b)" using b by simp
  from rfind_char_before[OF this, of a]
  have "\<not> rfind_char (a @ CHR ''{'' # b) CHR ''}'' + 1 > int (length a)" by simp
  then show ?thesis
    unfolding parse_response_def Let_def eq s by simp
qed

lemma strip_strip: "strip (strip s) = strip s"
proof -
  have a: "dropWhile is_space (dropWhile is_space xs) = dropWhile is_space xs" for xs
    by (induction xs) auto
  have b: "dropWhile is_space (rev (dropWhile is_space (rev ys))) = rev (dropWhile is_space (rev ys))"
    if "ys = [] \<or> \<not> is_space (hd ys)" for ys
  proof (cases "dropWhile is_space (rev ys) = []")
    case True show ?thesis unfolding True by simp
  next
    case False
    then have "ys \<noteq> []" by auto
    with that have h: "\<not> is_space (hd ys)" by simp
    from False obtain z zs where z: "dropWhile is_space (rev ys) = z # zs" by (cases "dropWhile is_space (rev ys)") auto
    have "\<exists>us. rev ys = us @ z # zs" using z by (metis takeWhile_dropWhile_id)
    then obtain us where "rev ys = us @ z # zs" by blast
    then have "ys = rev zs @ z # rev us" by (metis rev_rev_ident rev_append rev.simps(2) append_Cons append_Nil append_assoc)
    then have "hd (rev (z # zs)) = hd ys"
      by (cases "rev zs") auto
    with h have "\<not> is_space (hd (rev (dropWhile is_space (rev ys))))" by (simp add: z)
    moreover have "rev (dropWhile is_space (rev ys)) \<noteq> []" using False by simp
    ultimately show ?thesis by (cases "rev (dropWhile is_space (rev ys))") auto
  qed
  have c: "dropWhile is_space s = [] \<or> \<not> is_space (hd (dropWhile is_space s))"
    by (metis hd_dropWhile)
  show ?thesis
    unfolding strip_def rev_rev_ident a
    using b[OF c] by (simp add: a)
qed

lemma clean_response_plain:
  assumes "\<not> prefix ''```'' (strip r)" "\<not> suffix ''```'' (strip r)"
  shows "clean_response r = strip r"
proof -
  from assms(1) have "\<not> prefix ''```json'' (strip r)"
    by (auto simp: prefix_def)
  with assms show ?thesis
    by (simp add: clean_response_def Let_def startswith_def endswith_def strip_strip)
qed

lemma clean_response_json_fence:
  assumes "strip r = ''```json'' @ body @ ''```''"
  shows "clean_response r = strip body"
proof -
  have p: "prefix ''```json'' (strip r)" using assms by (simp add: prefix_def)
  have d: "drop 7 (strip r) = body @ ''```''" using assms by simp
  have e: "suffix ''```'' (body @ ''```'')" by (simp add: suffix_def)
  show ?thesis
    by (simp add: clean_response_def Let_def startswith_def endswith_def p d e)
qed

text \<open>
  Claim C8 as stated fails.  The response \<^verbatim>\<open>null\<close> holds no brace, so no object can be
  extracted between a first \<^verbatim>\<open>{\<close> and a last \<^verbatim>\<open>}\<close>; line 598 then decodes the whole
  response, and the decoded value is returned where the claim has a parse error.
\<close>

theorem brace_free_literal_is_returned:
  "clean_response ''null'' = ''null'' \<and> CHR ''{'' \<notin> set ''null'' \<and> CHR ''}'' \<notin> set ''null'' \<and>
   parse_response loads_literal ''null'' = Inr JNull"
  by (simp add: parse_response_def clean_response_def strip_def is_space_def startswith_def
      endswith_def find_char_def rfind_char_def loads_literal_def Let_def suffix_to_prefix)

text \<open>
  Claim C8, as amended.  The response is stripped of surrounding white space, of a leading
  \<^verbatim>\<open>```json\<close> (or \<^verbatim>\<open>```\<close>) and of a trailing \<^verbatim>\<open>```\<close>, and stripped again; a response
  without fences is only stripped.  When the cleaned text holds a \<^verbatim>\<open>{\<close> and a \<^verbatim>\<open>}\<close>
  after the first \<^verbatim>\<open>{\<close>, the text from the first \<^verbatim>\<open>{\<close> through the last \<^verbatim>\<open>}\<close> is
  handed to the decoder.  Otherwise (no \<^verbatim>\<open>{\<close>, or no \<^verbatim>\<open>}\<close> after the first one) the
  whole cleaned text is handed to the decoder.  The outcome of the decoder is the outcome
  of the method: its value is returned, its \<^verbatim>\<open>JSONDecodeError\<close> is raised again.
\<close>

theorem response_is_decoded_between_the_outer_braces:
  "(strip r = ''```json'' @ body @ ''```'' \<longrightarrow> clean_response r = strip body) \<and>
   (\<not> prefix ''```'' (strip r) \<and> \<not> suffix ''```'' (strip r) \<longrightarrow> clean_response r = strip r) \<and>
   (clean_response r = pre @ ''{'' @ mid @ ''}'' @ post \<and> CHR ''{'' \<notin> set pre \<and> CHR ''}'' \<notin> set post \<longrightarrow>
      parse_response loads r = loads (''{'' @ mid @ ''}'')) \<and>
   (CHR ''{'' \<notin> set (clean_response r) \<or>
    (\<exists>a b. clean_response r = a @ ''{'' @ b \<and> CHR ''{'' \<notin> set a \<and> CHR ''}'' \<notin> set b) \<longrightarrow>
      parse_response loads r = loads (clean_response r))"
  using clean_response_json_fence clean_response_plain parse_response_braces parse_response_whole
  by (intro conjI impI) blast+

text \<open>
  The same for an empty object inside a \<^verbatim>\<open>json\<close> fence, with a decoder that returns the
  text it is given.
\<close>

theorem response_is_decoded_between_the_outer_braces_witness:
  "clean_response ''```json {} ```'' = [] @ ''{'' @ [] @ ''}'' @ [] \<and>
   CHR ''{'' \<notin> set [] \<and> CHR ''}'' \<notin> set [] \<and>
   parse_response Inr ''```json {} ```'' = Inr ''{}''"
proof -
  have c: "clean_response ''```json {} ```'' = [] @ ''{'' @ [] @ ''}'' @ []"
    by (simp add: clean_response_def strip_def is_space_def startswith_def endswith_def Let_def
        suffix_to_prefix)
  have p: "CHR ''{'' \<notin> set []" "CHR ''}'' \<notin> set []" by simp_all
  have imp:
    "clean_response ''```json {} ```'' = [] @ ''{'' @ [] @ ''}'' @ [] \<and>
       CHR ''{'' \<notin> set [] \<and> CHR ''}'' \<notin> set [] \<longrightarrow>
     parse_response Inr ''```json {} ```'' = Inr (''{'' @ [] @ ''}'')"
    using response_is_decoded_between_the_outer_braces
            [of "''```json {} ```''" "[]" "[]" "[]" "[]" Inr]
    by (elim conjE)
  have "parse_response Inr ''```json {} ```'' = Inr (''{'' @ [] @ ''}'')"
    by (rule mp[OF imp]) (intro conjI c p)
  with c p show ?thesis by simp
qed

section \<open>Queries do not change the object\<close>

text \<open>The call that construction uses changes the object, so the state passed along is
  able to record a change.\<close>

lemma graph_add_edge_changes_the_object: "snd (graph_add_edge u v d self) \<noteq> self"
proof
  assume "snd (graph_add_edge u v d self) = self"
  then have "edges (kg_graph (snd (graph_add_edge u v d self))) = edges (kg_graph self)" by simp
  then show False by (simp add: graph_add_edge_def)
qed

lemma direction_step_frame:
  "direction_step ctx start finish self = (direction_joins (kg_graph self) ctx start finish, self)"
  by (simp add: direction_step_def direction_joins_def graph_has_edge_def graph_get_edge_data_def Let_def)

lemma pairs_step_frame:
  "pairs_step ctx ps self =
     (concat (map (\<lambda>(source, target). pair_joins (kg_graph self) ctx source target) ps), self)"
proof (induction ps arbitrary: self)
  case Nil
  then show ?case by simp
next
  case (Cons p ps)
  obtain source target where p: "p = (source, target)" by (cases p)
  show ?case
    by (simp add: p direction_step_frame Cons.IH pair_joins_def)
qed

lemma paths_step_frame:
  "paths_step ps all_tables self = (path_loop (kg_graph self) ps all_tables, self)"
proof (induction ps arbitrary: all_tables self)
  case Nil
  then show ?case by simp
next
  case (Cons p ps)
  obtain a b where p: "p = (a, b)" by (cases p)
  show ?case
    by (simp add: p graph_to_undirected_def Cons.IH split: sum.splits)
qed

lemma get_join_relationships_step_frame:
  "get_join_relationships_step tables ctx self = (get_join_relationships self tables ctx, self)"
  by (simp add: get_join_relationships_step_def get_join_relationships_def pairs_step_frame)

lemma get_all_tables_needed_step_frame:
  "get_all_tables_needed_step tables self = (get_all_tables_needed self tables, self)"
  by (simp add: get_all_tables_needed_step_def get_all_tables_needed_def paths_step_frame)

lemma call_frame: "snd (call q self) = self"
  by (cases q) (simp_all add: get_join_relationships_step_frame get_all_tables_needed_step_frame)

lemma calls_frame: "snd (calls qs self) = self"
proof (induction qs arbitrary: self)
  case Nil
  then show ?case by simp
next
  case (Cons q qs)
  have "snd (call q self) = self" by (rule call_frame)
  with Cons.IH[of self] show ?case by (simp add: split_beta)
qed

text \<open>
  Claim C9.  Run statement by statement on the state of the object, each query method
  ends in the state it started from, for every input and whether it returns or raises:
  \<open>get_join_relationships\<close> returns its records and \<open>get_all_tables_needed\<close> its tables or
  its error, and the graph with its nodes, edges and edge attributes, the schemas and the
  relationships are as before.  So is the object after any sequence of such calls.
\<close>

theorem queries_leave_the_object_unchanged:
  "get_join_relationships_step tables ctx self = (get_join_relationships self tables ctx, self) \<and>
   get_all_tables_needed_step tables self = (get_all_tables_needed self tables, self) \<and>
   snd (calls qs self) = self"
proof (intro conjI)
  show "get_join_relationships_step tables ctx self = (get_join_relationships self tables ctx, self)"
    unfolding get_join_relationships_step_def get_join_relationships_def
    by (rule pairs_step_frame)
  show "get_all_tables_needed_step tables self = (get_all_tables_needed self tables, self)"
    unfolding get_all_tables_needed_step_def get_all_tables_needed_def
    by (rule paths_step_frame)
  show "snd (calls qs self) = self"
    by (rule calls_frame)
qed

text \<open>
  The same for three calls on the sample graph, the second of which ends with
  \<^verbatim>\<open>NodeNotFound\<close>.
\<close>

theorem queries_leave_the_object_unchanged_witness:
  "snd (calls
          [GetJoinRelationships [''Trade'', ''Counterparty''] (Some ''Country''),
           GetAllTablesNeeded [''Counterparty'', ''Customers''],
           GetAllTablesNeeded [''Trade'', ''Concentration'']] bridge_kg) = bridge_kg"
  using queries_leave_the_object_unchanged
          [of "[]" None bridge_kg
              "[GetJoinRelationships [''Trade'', ''Counterparty''] (Some ''Country''),
                GetAllTablesNeeded [''Counterparty'', ''Customers''],
                GetAllTablesNeeded [''Trade'', ''Concentration'']]"]
  by (elim conjE)

end
